theory Spec2Isabelle
  imports Complex_Main "HOL-Library.Log_Nat"
begin

section \<open>Rolling ball baseline: the embedding of \<^verbatim>\<open>src/rollingBall.ts\<close>\<close>

text \<open>
  The source is one exported function, \<^verbatim>\<open>rollingBall(spectrum, options)\<close>. It checks
  its first argument, allocates three \<^verbatim>\<open>Float64Array\<close>s of the spectrum's length, and
  fills them in three \<^verbatim>\<open>for\<close> loops: windowed minima of the spectrum, windowed maxima
  of the minima, windowed means of the maxima.

  Modelling decisions:
  \<^item> a JavaScript \<^verbatim>\<open>number\<close> stored in the arrays is an IEEE 754 binary64 value
    (type \<open>double\<close> below): sums and quotients are rounded to nearest, ties to even,
    overflow gives an infinity, and NaN is a value;
  \<^item> an array (plain or typed) is a list; \<^verbatim>\<open>new Float64Array(n)\<close> is \<open>n\<close> zeros and
    \<^verbatim>\<open>a[i] = v\<close> is \<open>a[i := v]\<close>;
  \<^item> the two radii are natural numbers (the non-negative integers the options are
    documented to hold); an omitted option is \<open>None\<close>;
  \<^item> a \<^verbatim>\<open>throw\<close> is the left injection of the result.
\<close>

subsection \<open>Double-precision numbers\<close>

text \<open>
  Every finite binary64 value is an integer multiple of the least subnormal,
  \<^verbatim>\<open>2^-1074\<close>. \<open>Finite n\<close> stands for \<open>n\<close> times \<^verbatim>\<open>2^-1074\<close>. The two zeros are one
  value: the program never divides by a zero it computed, and no comparison tells
  them apart.
\<close>

datatype fval = Finite int | PosInfinity | NegInfinity | NotANumber

text \<open>
  A magnitude has a 53-bit significand when the bits below its 53 leading bits are
  zero (\<open>floorlog 2 n\<close> is the number of bits of \<open>n\<close>). The largest finite double is
  \<^verbatim>\<open>(2^53 - 1) * 2^971\<close>, below \<^verbatim>\<open>2^1024\<close>, which is \<^verbatim>\<open>2^2098\<close> of the units.
\<close>

definition fits53 :: "nat \<Rightarrow> bool" where
  "fits53 n = (2 ^ (floorlog 2 n - 53) dvd n)"

definition overflow_threshold :: nat where
  "overflow_threshold = 2 ^ 2098"

definition is_binary64 :: "fval \<Rightarrow> bool" where
  "is_binary64 v =
     (case v of
        Finite n \<Rightarrow> fits53 (nat \<bar>n\<bar>) \<and> nat \<bar>n\<bar> < overflow_threshold
      | _ \<Rightarrow> True)"

typedef double = "{v. is_binary64 v}"
  by (rule exI [of _ NotANumber]) (simp add: is_binary64_def)

text \<open>
  Rounding to nearest, ties to even. \<open>round_magnitude a d\<close> rounds the quotient \<open>a / d\<close>
  (in units of \<^verbatim>\<open>2^-1074\<close>) to a 53-bit significand: \<open>2 ^ s\<close> is the spacing of the
  doubles around the quotient, \<open>q\<close> the quotient in units of the spacing, rounded down,
  and \<open>r\<close> what is left. A rounded magnitude of \<^verbatim>\<open>2^1024\<close> or more is an infinity.
\<close>

definition round_magnitude :: "nat \<Rightarrow> nat \<Rightarrow> nat" where
  "round_magnitude a d =
     (let s = floorlog 2 (a div d) - 53;
          u = d * 2 ^ s;
          q = a div u;
          r = a mod u;
          m = (if 2 * r < u then q else if u < 2 * r then q + 1
               else if even q then q else q + 1)
      in m * 2 ^ s)"

definition round_to_binary64 :: "int \<Rightarrow> nat \<Rightarrow> fval" where
  "round_to_binary64 num den =
     (let m = round_magnitude (nat \<bar>num\<bar>) den
      in if overflow_threshold \<le> m then (if num < 0 then NegInfinity else PosInfinity)
         else Finite (sgn num * int m))"

text \<open>\<^verbatim>\<open>a + b\<close>: the exact sum of two finite values is an integer in these units.\<close>

fun add_binary64 :: "fval \<Rightarrow> fval \<Rightarrow> fval" where
  "add_binary64 NotANumber b = NotANumber"
| "add_binary64 a NotANumber = NotANumber"
| "add_binary64 PosInfinity NegInfinity = NotANumber"
| "add_binary64 NegInfinity PosInfinity = NotANumber"
| "add_binary64 PosInfinity b = PosInfinity"
| "add_binary64 a PosInfinity = PosInfinity"
| "add_binary64 NegInfinity b = NegInfinity"
| "add_binary64 a NegInfinity = NegInfinity"
| "add_binary64 (Finite x) (Finite y) = round_to_binary64 (x + y) 1"

text \<open>
  \<^verbatim>\<open>a / k\<close> for an array length \<open>k\<close> (a non-negative integer below \<^verbatim>\<open>2^53\<close>, exact
  as a double).
\<close>

fun divide_binary64 :: "fval \<Rightarrow> nat \<Rightarrow> fval" where
  "divide_binary64 NotANumber k = NotANumber"
| "divide_binary64 PosInfinity k = PosInfinity"
| "divide_binary64 NegInfinity k = NegInfinity"
| "divide_binary64 (Finite x) k =
     (if k = 0 then (if x = 0 then NotANumber else if x < 0 then NegInfinity else PosInfinity)
      else round_to_binary64 x k)"

text \<open>\<^verbatim>\<open>a < b\<close>: false when either side is NaN.\<close>

fun less_binary64 :: "fval \<Rightarrow> fval \<Rightarrow> bool" where
  "less_binary64 NotANumber b = False"
| "less_binary64 a NotANumber = False"
| "less_binary64 (Finite x) (Finite y) = (x < y)"
| "less_binary64 a NegInfinity = False"
| "less_binary64 NegInfinity b = True"
| "less_binary64 PosInfinity b = False"
| "less_binary64 a PosInfinity = True"

definition NaN :: double where
  "NaN = Abs_double NotANumber"

definition double_add :: "double \<Rightarrow> double \<Rightarrow> double" where
  "double_add a b = Abs_double (add_binary64 (Rep_double a) (Rep_double b))"

definition double_divide :: "double \<Rightarrow> nat \<Rightarrow> double" where
  "double_divide a k = Abs_double (divide_binary64 (Rep_double a) k)"

definition double_less :: "double \<Rightarrow> double \<Rightarrow> bool" where
  "double_less a b = less_binary64 (Rep_double a) (Rep_double b)"

text \<open>
  The double nearest to the fraction \<open>p / q\<close>, as a decimal literal denotes it:
  \<open>double_of_ratio 1 10\<close> is the number \<^verbatim>\<open>0.1\<close>. \<open>double_of_int k\<close> is the integer \<open>k\<close>.
\<close>

definition double_of_ratio :: "int \<Rightarrow> nat \<Rightarrow> double" where
  "double_of_ratio p q = Abs_double (round_to_binary64 (p * 2 ^ 1074) q)"

definition double_of_int :: "int \<Rightarrow> double" where
  "double_of_int k = double_of_ratio k 1"

type_synonym number = double

subsection \<open>Values, errors, options\<close>

text \<open>
  What a JavaScript caller can pass as \<^verbatim>\<open>spectrum\<close>. The element type of an array is a
  parameter: the checks at the head of the function never look at an element, and the
  arithmetic is only typed for arrays of numbers (\<^verbatim>\<open>NumberArray\<close>).
\<close>

datatype 'a js_value =
    JSUndefined
  | JSNull
  | JSBoolean bool
  | JSNumber number
  | JSString string
  | JSArray "'a list"

text \<open>
  \<open>InvalidInputError\<close> is \<^verbatim>\<open>throw new Error('Spectrum must be an array')\<close> (line 37),
  \<open>EmptyInputError\<close> is \<^verbatim>\<open>throw new TypeError('Spectrum must not be empty')\<close> (line 41).
\<close>

datatype error = InvalidInputError | EmptyInputError

record Options =
  windowM :: "nat option"
  windowS :: "nat option"

subsection \<open>Library functions the source calls\<close>

text \<open>
  Modelled from the spec: \<^verbatim>\<open>isAnyArray\<close> of the package \<^verbatim>\<open>is-any-array\<close>, which is not
  part of the sources. The spec's error cases separate \<^verbatim>\<open>null\<close> and non-array values
  from sequences: the predicate holds of arrays and of nothing else.
\<close>

definition isAnyArray :: "'a js_value \<Rightarrow> bool" where
  "isAnyArray v = (case v of JSArray _ \<Rightarrow> True | _ \<Rightarrow> False)"

text \<open>
  \<^verbatim>\<open>TypedArray.prototype.subarray(b, e)\<close> for non-negative indices: the elements at
  positions \<open>b\<close> (inclusive) to \<open>e\<close> (exclusive), both clamped to the length, and the
  empty array when \<open>e \<le> b\<close>.
\<close>

definition subarray :: "'a list \<Rightarrow> nat \<Rightarrow> nat \<Rightarrow> 'a list" where
  "subarray a b e = take (e - b) (drop b a)"

text \<open>
  Modelled from the spec: \<^verbatim>\<open>xMinValue\<close> and \<^verbatim>\<open>xMaxValue\<close> of the package
  \<^verbatim>\<open>ml-spectra-processing\<close>, which is not part of the sources, are the spec's
  shared-library min/max helpers operating over sub-ranges. The spec has no words on
  the convention of the range \<^verbatim>\<open>{fromIndex, toIndex}\<close>; it is the package's: both indices
  are clamped to the last index and swapped when out of order, and the values from
  \<^verbatim>\<open>fromIndex\<close> up to and including \<^verbatim>\<open>toIndex\<close> are scanned, starting from the value at
  \<^verbatim>\<open>fromIndex\<close> and replacing it by each value that compares less (greater). So
  \<^verbatim>\<open>xMinValue([5, 1, 7], {fromIndex: 0, toIndex: 1})\<close> is 1. On the empty array the
  helpers are never called by \<open>rollingBall\<close>; the model gives NaN there.
\<close>

definition xGetFromToIndex :: "'a list \<Rightarrow> nat \<Rightarrow> nat \<Rightarrow> nat \<times> nat" where
  "xGetFromToIndex x fromIndex toIndex =
     (let fromIndex' = (if length x \<le> fromIndex then length x - 1 else fromIndex);
          toIndex' = (if length x \<le> toIndex then length x - 1 else toIndex)
      in if toIndex' < fromIndex' then (toIndex', fromIndex') else (fromIndex', toIndex'))"

definition xMinValue :: "number list \<Rightarrow> nat \<Rightarrow> nat \<Rightarrow> number" where
  "xMinValue array fromIndex toIndex =
     (if array = [] then NaN
      else case xGetFromToIndex array fromIndex toIndex of
        (fromIndex', toIndex') \<Rightarrow>
          foldl (\<lambda>minValue v. if double_less v minValue then v else minValue)
            (array ! fromIndex') (subarray array (fromIndex' + 1) (toIndex' + 1)))"

definition xMaxValue :: "number list \<Rightarrow> nat \<Rightarrow> nat \<Rightarrow> number" where
  "xMaxValue array fromIndex toIndex =
     (if array = [] then NaN
      else case xGetFromToIndex array fromIndex toIndex of
        (fromIndex', toIndex') \<Rightarrow>
          foldl (\<lambda>maxValue v. if double_less maxValue v then v else maxValue)
            (array ! fromIndex') (subarray array (fromIndex' + 1) (toIndex' + 1)))"

text \<open>
  Modelled from the spec: \<^verbatim>\<open>xMean\<close> of the same package is the unweighted arithmetic
  average of the values, computed in floating point: the values are added from left to
  right, each sum rounded, and the total is divided by their number. On the empty
  array, which \<open>rollingBall\<close> never passes, the model gives NaN.
\<close>

definition xMean :: "number list \<Rightarrow> number" where
  "xMean array =
     (case array of
        [] \<Rightarrow> NaN
      | v # vs \<Rightarrow> double_divide (foldl double_add v vs) (length array))"

text \<open>
  \<^verbatim>\<open>Math.round\<close> on a non-negative number: the nearest integer, a tie going up. The
  default radii are computed on exact reals: \<open>N \<times> 0.04\<close> and \<open>N \<times> 0.08\<close> are at least
  \<open>1/50\<close> away from every tie, far more than the rounding of one product.
\<close>

definition Math_round :: "real \<Rightarrow> nat" where
  "Math_round x = nat \<lfloor>x + 1 / 2\<rfloor>"

subsection \<open>The three loops\<close>

text \<open>
  Lines 57 to 65: \<^verbatim>\<open>for (let i = 0; i < spectrum.length; i++)\<close>, started at any \<open>i\<close>.
\<close>

function minima_loop :: "number list \<Rightarrow> nat \<Rightarrow> nat \<Rightarrow> number list \<Rightarrow> number list" where
  "minima_loop spectrum wM i minima =
     (if i < length spectrum then
        (let windowLeft = nat (max 0 (int i - int wM));
             windowRight = min (i + wM + 1) (length spectrum)
         in minima_loop spectrum wM (i + 1)
              (minima[i := xMinValue spectrum windowLeft windowRight]))
      else minima)"
  by pat_completeness auto
termination
  by (relation "measure (\<lambda>(spectrum, wM, i, minima). length spectrum - i)") auto

text \<open>
  Lines 68 to 75: \<^verbatim>\<open>for (let i = 0; i < minima.length; i++)\<close>, reading \<open>minima\<close> and
  writing \<open>maxima\<close>.
\<close>

function maxima_loop :: "number list \<Rightarrow> nat \<Rightarrow> nat \<Rightarrow> number list \<Rightarrow> number list" where
  "maxima_loop minima wM i maxima =
     (if i < length minima then
        (let windowLeft = nat (max 0 (int i - int wM));
             windowRight = min (i + wM + 1) (length minima)
         in maxima_loop minima wM (i + 1)
              (maxima[i := xMaxValue minima windowLeft windowRight]))
      else maxima)"
  by pat_completeness auto
termination
  by (relation "measure (\<lambda>(minima, wM, i, maxima). length minima - i)") auto

text \<open>
  Lines 77 to 81: the loop runs to \<^verbatim>\<open>minima.length\<close>, clips the window at
  \<^verbatim>\<open>maxima.length\<close> and averages \<^verbatim>\<open>maxima.subarray(windowLeft, windowRight)\<close>.
\<close>

function baseline_loop ::
  "number list \<Rightarrow> number list \<Rightarrow> nat \<Rightarrow> nat \<Rightarrow> number list \<Rightarrow> number list" where
  "baseline_loop minima maxima wS i baseline =
     (if i < length minima then
        (let windowLeft = nat (max 0 (int i - int wS));
             windowRight = min (i + wS + 1) (length maxima)
         in baseline_loop minima maxima wS (i + 1)
              (baseline[i := xMean (subarray maxima windowLeft windowRight)]))
      else baseline)"
  by pat_completeness auto
termination
  by (relation "measure (\<lambda>(minima, maxima, wS, i, baseline). length minima - i)") auto

declare minima_loop.simps [simp del]
declare maxima_loop.simps [simp del]
declare baseline_loop.simps [simp del]

subsection \<open>The function\<close>

text \<open>The elements of an array; \<^verbatim>\<open>spectrum.length\<close> is the length of this list.\<close>

definition array_elements :: "'a js_value \<Rightarrow> 'a list" where
  "array_elements v = (case v of JSArray elements \<Rightarrow> elements | _ \<Rightarrow> [])"

text \<open>Lines 36 to 42: the two checks, in the source's order.\<close>

definition checkSpectrum :: "'a js_value \<Rightarrow> error + 'a list" where
  "checkSpectrum spectrum =
     (if \<not> isAnyArray spectrum then Inl InvalidInputError
      else if length (array_elements spectrum) = 0 then Inl EmptyInputError
      else Inr (array_elements spectrum))"

text \<open>
  Lines 44 to 81 on an array that passed the checks: the allocations, the defaults of
  the destructuring at lines 51 to 54, and the three loops. The three arrays are
  returned together, so that statements about \<open>minima\<close> and \<open>maxima\<close> are statements
  about the arrays the function computes.
\<close>

definition rollingBall_arrays ::
  "number list \<Rightarrow> Options \<Rightarrow> number list \<times> number list \<times> number list" where
  "rollingBall_arrays spectrum options =
     (let numberPoints = length spectrum;
          maxima0 = replicate numberPoints (double_of_int 0);
          minima0 = replicate numberPoints (double_of_int 0);
          baseline0 = replicate numberPoints (double_of_int 0);
          wM = (case windowM options of
                  Some w \<Rightarrow> w
                | None \<Rightarrow> Math_round (real numberPoints * (4 / 100)));
          wS = (case windowS options of
                  Some w \<Rightarrow> w
                | None \<Rightarrow> Math_round (real numberPoints * (8 / 100)));
          minima = minima_loop spectrum wM 0 minima0;
          maxima = maxima_loop minima wM 0 maxima0;
          baseline = baseline_loop minima maxima wS 0 baseline0
      in (minima, maxima, baseline))"

definition minima_of :: "number list \<Rightarrow> Options \<Rightarrow> number list" where
  "minima_of spectrum options = fst (rollingBall_arrays spectrum options)"

definition maxima_of :: "number list \<Rightarrow> Options \<Rightarrow> number list" where
  "maxima_of spectrum options = fst (snd (rollingBall_arrays spectrum options))"

definition baseline_of :: "number list \<Rightarrow> Options \<Rightarrow> number list" where
  "baseline_of spectrum options = snd (snd (rollingBall_arrays spectrum options))"

definition rollingBall :: "number js_value \<Rightarrow> Options \<Rightarrow> error + number list" where
  "rollingBall spectrum options =
     (case checkSpectrum spectrum of
        Inl e \<Rightarrow> Inl e
      | Inr elements \<Rightarrow> Inr (baseline_of elements options))"

subsection \<open>Names for what the loops compute\<close>

text \<open>
  The window bounds of lines 58 and 59 (and again 69, 70, 78, 79) for the index \<open>i\<close>
  of an array of \<open>n\<close> points: \<^verbatim>\<open>Math.max(0, i - radius)\<close> and
  \<^verbatim>\<open>Math.min(i + radius + 1, n)\<close>.
\<close>

definition windowLeft_of :: "nat \<Rightarrow> nat \<Rightarrow> nat" where
  "windowLeft_of radius i = nat (max 0 (int i - int radius))"

definition windowRight_of :: "nat \<Rightarrow> nat \<Rightarrow> nat \<Rightarrow> nat" where
  "windowRight_of n radius i = min (i + radius + 1) n"

text \<open>The radii that the destructuring of lines 51 to 54 binds.\<close>

definition resolved_windowM :: "nat \<Rightarrow> Options \<Rightarrow> nat" where
  "resolved_windowM n options =
     (case windowM options of Some w \<Rightarrow> w | None \<Rightarrow> Math_round (real n * (4 / 100)))"

definition resolved_windowS :: "nat \<Rightarrow> Options \<Rightarrow> nat" where
  "resolved_windowS n options =
     (case windowS options of Some w \<Rightarrow> w | None \<Rightarrow> Math_round (real n * (8 / 100)))"

subsection \<open>The three passes as the specification words them\<close>

text \<open>
  These definitions follow the specification, not the source: the window of index \<open>i\<close>
  is the index range \<open>[max(0, i - radius), min(i + radius + 1, N))\<close>, right bound
  exclusive; \<open>minima[i]\<close> is the minimum of the signal over the window, \<open>maxima[i]\<close> the
  maximum of the minima over the window of the same radius, and \<open>baseline[i]\<close> the mean
  of the maxima over the window of the smoothing radius.
\<close>

definition spec_window :: "'a list \<Rightarrow> nat \<Rightarrow> nat \<Rightarrow> 'a list" where
  "spec_window a radius i =
     subarray a (nat (max 0 (int i - int radius))) (min (i + radius + 1) (length a))"

definition sequence_min :: "number list \<Rightarrow> number" where
  "sequence_min vs = foldl (\<lambda>m v. if double_less v m then v else m) (hd vs) (tl vs)"

definition sequence_max :: "number list \<Rightarrow> number" where
  "sequence_max vs = foldl (\<lambda>m v. if double_less m v then v else m) (hd vs) (tl vs)"

definition spec_minima :: "number list \<Rightarrow> nat \<Rightarrow> number list" where
  "spec_minima signal wM =
     map (\<lambda>i. sequence_min (spec_window signal wM i)) [0 ..< length signal]"

definition spec_maxima :: "number list \<Rightarrow> nat \<Rightarrow> number list" where
  "spec_maxima signal wM =
     map (\<lambda>i. sequence_max (spec_window (spec_minima signal wM) wM i)) [0 ..< length signal]"

definition computeBaseline_spec :: "number list \<Rightarrow> nat \<Rightarrow> nat \<Rightarrow> number list" where
  "computeBaseline_spec signal wM wS =
     map (\<lambda>i. xMean (spec_window (spec_maxima signal wM) wS i)) [0 ..< length signal]"

section \<open>Double-precision arithmetic\<close>

subsection \<open>Rounding gives doubles, and leaves doubles alone\<close>

lemma fits53_shift:
  assumes "m \<le> 2 ^ 53"
  shows "fits53 (m * 2 ^ s)"
proof (cases "m = 0")
  case True
  then show ?thesis by (simp add: fits53_def)
next
  case False
  then have pos: "0 < m" by simp
  have fl: "floorlog 2 (m * 2 ^ s) = floorlog 2 m + s"
    using pos by simp
  show ?thesis
  proof (cases "m < 2 ^ 53")
    case True
    then have "floorlog 2 m \<le> 53" by (simp add: floorlog_le_iff)
    then have "floorlog 2 m + s - 53 \<le> s" by simp
    then have "(2::nat) ^ (floorlog 2 m + s - 53) dvd 2 ^ s"
      by (rule le_imp_power_dvd)
    then show ?thesis
      unfolding fits53_def fl by (rule dvd_mult)
  next
    case False
    with assms have m: "m = 2 ^ 53" by simp
    have "floorlog 2 (1 * 2 ^ 53) = floorlog 2 1 + 53"
      by (rule floorlog_power) simp_all
    moreover have "floorlog 2 1 = 1" by (simp add: compute_floorlog)
    ultimately have "floorlog 2 m = 54" by (simp add: m)
    then have e: "floorlog 2 m + s - 53 = Suc s" by simp
    have "(2::nat) ^ Suc s dvd 2 ^ (53 + s)"
      by (rule le_imp_power_dvd) simp
    then have "(2::nat) ^ Suc s dvd 2 ^ 53 * 2 ^ s"
      by (simp only: power_add)
    then have d: "(2::nat) ^ Suc s dvd m * 2 ^ s"
      by (simp only: m)
    have "(2::nat) ^ (floorlog 2 (m * 2 ^ s) - 53) = 2 ^ Suc s"
      by (simp only: fl e)
    with d show ?thesis
      by (simp only: fits53_def)
  qed
qed

lemma quotient_below_2_53:
  fixes b :: nat
  shows "b div 2 ^ (floorlog 2 b - 53) < 2 ^ 53"
proof (cases "b = 0")
  case True
  then show ?thesis by simp
next
  case False
  then have "b < 2 ^ floorlog 2 b"
    using floorlog_bounds [of b 2] by simp
  also have "(2::nat) ^ floorlog 2 b \<le> 2 ^ (53 + (floorlog 2 b - 53))"
    by (rule power_increasing) simp_all
  finally have "b < 2 ^ 53 * 2 ^ (floorlog 2 b - 53)"
    by (simp only: power_add)
  then show ?thesis
    by (simp add: less_mult_imp_div_less)
qed

lemma round_magnitude_fits: "fits53 (round_magnitude a d)"
proof -
  define s where "s = floorlog 2 (a div d) - 53"
  define q where "q = a div (d * 2 ^ s)"
  define m where "m = (if 2 * (a mod (d * 2 ^ s)) < d * 2 ^ s then q
      else if d * 2 ^ s < 2 * (a mod (d * 2 ^ s)) then q + 1
      else if even q then q else q + 1)"
  have r: "round_magnitude a d = m * 2 ^ s"
    by (simp add: round_magnitude_def Let_def s_def q_def m_def)
  have "q = (a div d) div 2 ^ s"
    by (simp add: q_def div_mult2_eq)
  then have "q < 2 ^ 53"
    unfolding s_def using quotient_below_2_53 [of "a div d"] by simp
  then have "m \<le> 2 ^ 53"
    by (simp add: m_def)
  then show ?thesis
    unfolding r by (rule fits53_shift)
qed

lemma round_magnitude_exact: "fits53 a \<Longrightarrow> round_magnitude a 1 = a"
  by (auto simp: round_magnitude_def fits53_def Let_def)

lemma round_magnitude_zero: "round_magnitude 0 d = 0"
  by (simp add: round_magnitude_def Let_def)

lemma is_binary64_round: "is_binary64 (round_to_binary64 num den)"
proof (cases "num = 0")
  case True
  then show ?thesis
    by (simp add: round_to_binary64_def is_binary64_def round_magnitude_zero
        overflow_threshold_def fits53_def)
next
  case False
  then have "nat \<bar>sgn num * int m\<bar> = m" for m
    by (simp add: abs_mult)
  then show ?thesis
    using round_magnitude_fits [of "nat \<bar>num\<bar>" den]
    by (simp add: round_to_binary64_def is_binary64_def Let_def)
qed

lemma round_to_binary64_exact:
  assumes "is_binary64 (Finite n)"
  shows "round_to_binary64 n 1 = Finite n"
proof -
  from assms have f: "fits53 (nat \<bar>n\<bar>)" and b: "nat \<bar>n\<bar> < overflow_threshold"
    by (simp_all add: is_binary64_def)
  have sg: "sgn n * int (nat \<bar>n\<bar>) = n"
    by (simp add: sgn_mult_abs)
  have rm: "round_magnitude (nat \<bar>n\<bar>) 1 = nat \<bar>n\<bar>"
    by (rule round_magnitude_exact [OF f])
  from b have nb: "\<not> overflow_threshold \<le> nat \<bar>n\<bar>" by simp
  show ?thesis
    unfolding round_to_binary64_def Let_def rm
    by (simp only: nb sg if_False)
qed

subsection \<open>The operations on the type\<close>

lemma is_binary64_Rep: "is_binary64 (Rep_double a)"
  using Rep_double [of a] by simp

lemma is_binary64_add: "is_binary64 (add_binary64 x y)"
  by (cases x; cases y) (simp_all add: is_binary64_round, simp_all add: is_binary64_def)

lemma is_binary64_divide: "is_binary64 (divide_binary64 x k)"
  by (cases x) (simp_all add: is_binary64_round, simp_all add: is_binary64_def)

lemma Rep_NaN: "Rep_double NaN = NotANumber"
  by (simp add: NaN_def Abs_double_inverse is_binary64_def)

lemma Rep_double_add: "Rep_double (double_add a b) = add_binary64 (Rep_double a) (Rep_double b)"
  by (simp add: double_add_def Abs_double_inverse is_binary64_add)

lemma Rep_double_divide: "Rep_double (double_divide a k) = divide_binary64 (Rep_double a) k"
  by (simp add: double_divide_def Abs_double_inverse is_binary64_divide)

lemma Rep_double_of_ratio:
  "Rep_double (double_of_ratio p q) = round_to_binary64 (p * 2 ^ 1074) q"
  by (simp add: double_of_ratio_def Abs_double_inverse is_binary64_round)

text \<open>Dividing by one changes nothing: \<^verbatim>\<open>x / 1\<close> is \<open>x\<close> for every double.\<close>

lemma double_divide_one: "double_divide a 1 = a"
proof -
  have "divide_binary64 (Rep_double a) 1 = Rep_double a"
    using is_binary64_Rep [of a]
    by (cases "Rep_double a") (simp_all add: round_to_binary64_exact [unfolded One_nat_def])
  then show ?thesis
    by (simp add: Rep_double_inject [symmetric] Rep_double_divide)
qed

lemma xMean_single: "xMean [x] = x"
  by (simp add: xMean_def double_divide_one [unfolded One_nat_def])

subsection \<open>The comparison\<close>

lemma less_binary64_irrefl: "\<not> less_binary64 x x"
  by (cases x) simp_all

lemma less_binary64_trans:
  "less_binary64 x y \<Longrightarrow> less_binary64 y z \<Longrightarrow> less_binary64 x z"
  by (cases x; cases y; cases z) simp_all

lemma double_less_irrefl: "\<not> double_less a a"
  by (simp add: double_less_def less_binary64_irrefl)

lemma double_less_trans: "double_less a b \<Longrightarrow> double_less b c \<Longrightarrow> double_less a c"
  unfolding double_less_def by (rule less_binary64_trans)

lemma double_less_asym: "double_less a b \<Longrightarrow> \<not> double_less b a"
  using double_less_trans [of a b a] double_less_irrefl [of a] by blast

subsection \<open>Computing a rounding\<close>

text \<open>
  When the quotient is \<open>q\<close> units of the spacing \<open>2 ^ s\<close> with remainder \<open>r\<close>, and \<open>q\<close> has
  53 bits (or the spacing is the least one), the rounding is decided by comparing
  \<open>2r\<close> with the divisor.
\<close>

lemma round_magnitude_eval:
  fixes d r s q :: nat
  assumes d: "0 < d" and r: "r < d * 2 ^ s" and q: "q < 2 ^ 53" and n: "s = 0 \<or> 2 ^ 52 \<le> q"
  shows "round_magnitude (q * (d * 2 ^ s) + r) d =
    (if 2 * r < d * 2 ^ s then q else if d * 2 ^ s < 2 * r then q + 1
     else if even q then q else q + 1) * 2 ^ s"
proof -
  define a where "a = q * (d * 2 ^ s) + r"
  have "a = r + (q * 2 ^ s) * d"
    by (simp add: a_def algebra_simps)
  then have b: "a div d = q * 2 ^ s + r div d"
    using d by simp
  have rd: "r div d < 2 ^ s"
    using r by (simp add: less_mult_imp_div_less mult.commute)
  have fl: "floorlog 2 (a div d) - 53 = s"
  proof (cases "s = 0")
    case True
    with rd b have "a div d = q" by simp
    with q have "floorlog 2 (a div d) \<le> 53" by (simp add: floorlog_le_iff)
    with True show ?thesis by simp
  next
    case False
    with n have lo: "2 ^ 52 \<le> q" by simp
    have "(2::nat) ^ (52 + s) = 2 ^ 52 * 2 ^ s" by (simp only: power_add)
    also have "\<dots> \<le> q * 2 ^ s" using lo by (rule mult_le_mono1)
    also have "\<dots> \<le> a div d" by (simp add: b)
    finally have "(2::nat) ^ (53 + s - 1) \<le> a div d" by simp
    then have ge: "53 + s \<le> floorlog 2 (a div d)"
      by (rule floorlog_geI) simp
    have "a div d < q * 2 ^ s + 2 ^ s" using rd by (simp add: b)
    also have "\<dots> = (q + 1) * 2 ^ s" by (simp add: algebra_simps)
    also have "\<dots> \<le> 2 ^ 53 * 2 ^ s" using q by (intro mult_le_mono1) simp
    also have "\<dots> = 2 ^ (53 + s)" by (simp only: power_add)
    finally have "floorlog 2 (a div d) \<le> 53 + s"
      by (simp add: floorlog_le_iff)
    with ge show ?thesis by simp
  qed
  have "a = r + q * (d * 2 ^ s)" by (simp add: a_def)
  then have dv: "a div (d * 2 ^ s) = q" and md: "a mod (d * 2 ^ s) = r"
    using r d by simp_all
  show ?thesis
    unfolding a_def [symmetric] round_magnitude_def Let_def fl dv md ..
qed

lemma round_to_binary64_eval:
  fixes d r s q :: nat
  assumes "0 < d" and "r < d * 2 ^ s" and "q < 2 ^ 53" and "s = 0 \<or> 2 ^ 52 \<le> q"
    and "s \<le> 2044" and "0 < num" and "num = int (q * (d * 2 ^ s) + r)"
  shows "round_to_binary64 num d =
    Finite (int ((if 2 * r < d * 2 ^ s then q else if d * 2 ^ s < 2 * r then q + 1
                  else if even q then q else q + 1) * 2 ^ s))"
proof -
  define m where "m = (if 2 * r < d * 2 ^ s then q else if d * 2 ^ s < 2 * r then q + 1
      else if even q then q else q + 1)"
  have "nat \<bar>num\<bar> = q * (d * 2 ^ s) + r"
    unfolding assms(7) by (simp only: abs_of_nat nat_int)
  then have rm: "round_magnitude (nat \<bar>num\<bar>) d = m * 2 ^ s"
    by (simp only: round_magnitude_eval [OF assms(1-4)] m_def)
  have "m \<le> 2 ^ 53" using assms(3) by (simp add: m_def)
  then have "m * 2 ^ s \<le> 2 ^ 53 * 2 ^ s" by (rule mult_le_mono1)
  also have "\<dots> = 2 ^ (53 + s)" by (simp only: power_add)
  also have "\<dots> < (2::nat) ^ 2098"
    using assms(5) by (intro power_strict_increasing) simp_all
  finally have no: "\<not> overflow_threshold \<le> m * 2 ^ s"
    by (simp add: overflow_threshold_def)
  from assms(6) have sg: "sgn num = 1" by simp
  show ?thesis
    unfolding round_to_binary64_def Let_def rm m_def [symmetric]
    by (simp only: no sg if_False mult_1)
qed

text \<open>
  Overflow: the largest finite double added to itself is an infinity.
\<close>

lemma largest_plus_largest:
  "add_binary64 (Finite (9007199254740991 * 2 ^ 2045)) (Finite (9007199254740991 * 2 ^ 2045)) =
     PosInfinity"
proof -
  have "round_magnitude (9007199254740991 * 2 ^ 2046) 1 = 9007199254740991 * 2 ^ 2046"
    using round_magnitude_eval [where d = 1 and q = 9007199254740991 and s = 2046 and r = 0]
    by simp
  moreover have "nat \<bar>9007199254740991 * 2 ^ 2045 + 9007199254740991 * 2 ^ 2045\<bar> =
      9007199254740991 * 2 ^ 2046"
    by simp
  ultimately show ?thesis
    by (simp add: round_to_binary64_def overflow_threshold_def Let_def)
qed

subsection \<open>Small integers\<close>

lemma Rep_double_of_int:
  assumes "\<bar>k\<bar> \<le> 2 ^ 53"
  shows "Rep_double (double_of_int k) = Finite (k * 2 ^ 1074)"
proof -
  have n: "nat \<bar>k * 2 ^ 1074\<bar> = nat \<bar>k\<bar> * 2 ^ 1074"
    by (simp add: abs_mult nat_mult_distrib)
  from assms have le: "nat \<bar>k\<bar> \<le> 2 ^ 53" by simp
  then have "nat \<bar>k\<bar> * 2 ^ 1074 \<le> 2 ^ 53 * 2 ^ 1074" by (rule mult_le_mono1)
  also have "\<dots> < (2::nat) ^ 2098" by simp
  finally have "nat \<bar>k\<bar> * 2 ^ 1074 < overflow_threshold"
    by (simp only: overflow_threshold_def)
  with fits53_shift [OF le, of 1074] have "is_binary64 (Finite (k * 2 ^ 1074))"
    by (simp only: is_binary64_def fval.case n conj_commute)
  then show ?thesis
    by (simp only: double_of_int_def Rep_double_of_ratio round_to_binary64_exact)
qed

lemma double_less_of_int:
  "\<bar>a\<bar> \<le> 2 ^ 53 \<Longrightarrow> \<bar>b\<bar> \<le> 2 ^ 53 \<Longrightarrow> double_less (double_of_int a) (double_of_int b) = (a < b)"
  by (simp add: double_less_def Rep_double_of_int)

subsection \<open>One tenth\<close>

text \<open>
  The number \<^verbatim>\<open>0.1\<close> is \<^verbatim>\<open>7205759403792794 * 2^-56\<close>, and the next double above it is
  the number \<^verbatim>\<open>0.10000000000000002\<close>. Adding \<^verbatim>\<open>0.1\<close> three times gives
  \<^verbatim>\<open>0.30000000000000004\<close> (the second sum is a tie, rounded to the even significand),
  and a third of that rounds up to \<^verbatim>\<open>0.10000000000000002\<close>.
\<close>

lemma Rep_tenth:
  "Rep_double (double_of_ratio 1 10) = Finite (7205759403792794 * 2 ^ 1018)"
  unfolding Rep_double_of_ratio
  by (subst round_to_binary64_eval
        [where q = 7205759403792793 and s = 1018 and r = "6 * 2 ^ 1018"])
     simp_all

lemma Rep_tenth_next:
  "Rep_double (double_of_ratio 10000000000000002 100000000000000000) =
     Finite (7205759403792795 * 2 ^ 1018)"
  unfolding Rep_double_of_ratio
  by (subst round_to_binary64_eval
        [where q = 7205759403792795 and s = 1018 and r = "4115188075855872 * 2 ^ 1018"])
     simp_all

lemma tenth_plus_tenth:
  "add_binary64 (Finite (7205759403792794 * 2 ^ 1018)) (Finite (7205759403792794 * 2 ^ 1018)) =
     Finite (7205759403792794 * 2 ^ 1019)"
  unfolding add_binary64.simps
  by (subst round_to_binary64_eval [where q = 7205759403792794 and s = 1019 and r = 0])
     simp_all

lemma two_tenths_plus_tenth:
  "add_binary64 (Finite (7205759403792794 * 2 ^ 1019)) (Finite (7205759403792794 * 2 ^ 1018)) =
     Finite (5404319552844596 * 2 ^ 1020)"
  unfolding add_binary64.simps
  by (subst round_to_binary64_eval
        [where q = 5404319552844595 and s = 1020 and r = "2 ^ 1019"])
     simp_all

lemma three_tenths_by_three:
  "divide_binary64 (Finite (5404319552844596 * 2 ^ 1020)) 3 =
     Finite (7205759403792795 * 2 ^ 1018)"
  unfolding divide_binary64.simps
  by (subst round_to_binary64_eval
        [where q = 7205759403792794 and s = 1018 and r = "2 * 2 ^ 1018"])
     simp_all

lemma two_tenths_by_two:
  "divide_binary64 (Finite (7205759403792794 * 2 ^ 1019)) 2 =
     Finite (7205759403792794 * 2 ^ 1018)"
  unfolding divide_binary64.simps
  by (subst round_to_binary64_eval [where q = 7205759403792794 and s = 1018 and r = 0])
     simp_all

lemma xMean_three_tenths:
  "xMean [double_of_ratio 1 10, double_of_ratio 1 10, double_of_ratio 1 10] =
     double_of_ratio 10000000000000002 100000000000000000"
proof -
  have l: "length [double_of_ratio 1 10, double_of_ratio 1 10, double_of_ratio 1 10] = 3"
    by simp
  show ?thesis
    unfolding Rep_double_inject [symmetric]
    by (simp only: xMean_def list.case foldl.simps l Rep_double_divide Rep_double_add
          Rep_tenth Rep_tenth_next tenth_plus_tenth two_tenths_plus_tenth
          three_tenths_by_three)
qed

lemma xMean_two_tenths:
  "xMean [double_of_ratio 1 10, double_of_ratio 1 10] = double_of_ratio 1 10"
proof -
  have l: "length [double_of_ratio 1 10, double_of_ratio 1 10] = 2"
    by simp
  show ?thesis
    unfolding Rep_double_inject [symmetric]
    by (simp only: xMean_def list.case foldl.simps l Rep_double_divide Rep_double_add
          Rep_tenth tenth_plus_tenth two_tenths_by_two)
qed

lemma tenth_less_next:
  "double_less (double_of_ratio 1 10) (double_of_ratio 10000000000000002 100000000000000000)"
  by (simp add: double_less_def Rep_tenth Rep_tenth_next)

lemma tenth_neq_next:
  "double_of_ratio 10000000000000002 100000000000000000 \<noteq> double_of_ratio 1 10"
  using tenth_less_next double_less_irrefl by metis

section \<open>What the loops compute\<close>

lemma window_nonempty:
  "i < n \<Longrightarrow>
   windowLeft_of r i \<le> i \<and> i < windowRight_of n r i \<and> windowRight_of n r i \<le> n"
  by (auto simp: windowLeft_of_def windowRight_of_def)

lemma windowRight_le: "windowRight_of n r i \<le> n"
  by (simp add: windowRight_of_def)

lemma window_lt: "i < n \<Longrightarrow> windowLeft_of r i < windowRight_of n r i"
  using window_nonempty [of i n r] by simp

lemma update_at_end: "i < length a \<Longrightarrow> take (Suc i) (a[i := v]) = take i a @ [v]"
  by (simp add: take_Suc_conv_app_nth)

text \<open>
  Each loop, started at \<open>i\<close> on an array of the right length, keeps the first \<open>i\<close> cells
  and writes the windowed statistic into every cell from \<open>i\<close> on.
\<close>

lemma minima_loop_eq:
  "length minima = length spectrum \<Longrightarrow>
   minima_loop spectrum wM i minima =
     take i minima @
     map (\<lambda>k. xMinValue spectrum (windowLeft_of wM k) (windowRight_of (length spectrum) wM k))
       [i ..< length spectrum]"
proof (induction spectrum wM i minima rule: minima_loop.induct)
  case (1 spectrum wM i minima)
  show ?case
  proof (cases "i < length spectrum")
    case True
    then have il: "i < length minima" using "1.prems" by simp
    show ?thesis
      using True "1.IH" [OF True refl refl] "1.prems" il
      by (subst minima_loop.simps)
         (simp add: Let_def upt_conv_Cons update_at_end windowLeft_of_def windowRight_of_def)
  next
    case False
    then show ?thesis
      using "1.prems" by (subst minima_loop.simps) simp
  qed
qed

lemma maxima_loop_eq:
  "length maxima = length minima \<Longrightarrow>
   maxima_loop minima wM i maxima =
     take i maxima @
     map (\<lambda>k. xMaxValue minima (windowLeft_of wM k) (windowRight_of (length minima) wM k))
       [i ..< length minima]"
proof (induction minima wM i maxima rule: maxima_loop.induct)
  case (1 minima wM i maxima)
  show ?case
  proof (cases "i < length minima")
    case True
    then have il: "i < length maxima" using "1.prems" by simp
    show ?thesis
      using True "1.IH" [OF True refl refl] "1.prems" il
      by (subst maxima_loop.simps)
         (simp add: Let_def upt_conv_Cons update_at_end windowLeft_of_def windowRight_of_def)
  next
    case False
    then show ?thesis
      using "1.prems" by (subst maxima_loop.simps) simp
  qed
qed

lemma baseline_loop_eq:
  "length baseline = length minima \<Longrightarrow>
   baseline_loop minima maxima wS i baseline =
     take i baseline @
     map (\<lambda>k. xMean (subarray maxima (windowLeft_of wS k) (windowRight_of (length maxima) wS k)))
       [i ..< length minima]"
proof (induction minima maxima wS i baseline rule: baseline_loop.induct)
  case (1 minima maxima wS i baseline)
  show ?case
  proof (cases "i < length minima")
    case True
    then have il: "i < length baseline" using "1.prems" by simp
    show ?thesis
      using True "1.IH" [OF True refl refl] "1.prems" il
      by (subst baseline_loop.simps)
         (simp add: Let_def upt_conv_Cons update_at_end windowLeft_of_def windowRight_of_def)
  next
    case False
    then show ?thesis
      using "1.prems" by (subst baseline_loop.simps) simp
  qed
qed

lemma resolved_given [simp]:
  "resolved_windowM n \<lparr>windowM = Some wM, windowS = s\<rparr> = wM"
  "resolved_windowS n \<lparr>windowM = m, windowS = Some wS\<rparr> = wS"
  by (simp_all add: resolved_windowM_def resolved_windowS_def)

lemma minima_of_eq:
  "minima_of spectrum options =
     map (\<lambda>k. xMinValue spectrum (windowLeft_of (resolved_windowM (length spectrum) options) k)
                 (windowRight_of (length spectrum) (resolved_windowM (length spectrum) options) k))
       [0 ..< length spectrum]"
  by (simp add: minima_of_def rollingBall_arrays_def Let_def minima_loop_eq resolved_windowM_def)

lemma length_minima_of: "length (minima_of spectrum options) = length spectrum"
  by (simp add: minima_of_eq)

lemma maxima_of_eq:
  "maxima_of spectrum options =
     map (\<lambda>k. xMaxValue (minima_of spectrum options)
                 (windowLeft_of (resolved_windowM (length spectrum) options) k)
                 (windowRight_of (length spectrum) (resolved_windowM (length spectrum) options) k))
       [0 ..< length spectrum]"
proof -
  have "maxima_of spectrum options =
      maxima_loop (minima_of spectrum options) (resolved_windowM (length spectrum) options) 0
        (replicate (length spectrum) (double_of_int 0))"
    by (simp add: maxima_of_def minima_of_def rollingBall_arrays_def Let_def resolved_windowM_def)
  then show ?thesis
    by (simp add: maxima_loop_eq length_minima_of)
qed

lemma length_maxima_of: "length (maxima_of spectrum options) = length spectrum"
  by (simp add: maxima_of_eq)

lemma baseline_of_eq:
  "baseline_of spectrum options =
     map (\<lambda>k. xMean (subarray (maxima_of spectrum options)
                 (windowLeft_of (resolved_windowS (length spectrum) options) k)
                 (windowRight_of (length spectrum) (resolved_windowS (length spectrum) options) k)))
       [0 ..< length spectrum]"
proof -
  have "baseline_of spectrum options =
      baseline_loop (minima_of spectrum options) (maxima_of spectrum options)
        (resolved_windowS (length spectrum) options) 0
        (replicate (length spectrum) (double_of_int 0))"
    by (simp add: baseline_of_def maxima_of_def minima_of_def rollingBall_arrays_def Let_def
          resolved_windowS_def)
  then show ?thesis
    by (simp add: baseline_loop_eq length_minima_of length_maxima_of)
qed

lemma length_baseline_of: "length (baseline_of spectrum options) = length spectrum"
  by (simp add: baseline_of_eq)

lemma rollingBall_array:
  "spectrum \<noteq> [] \<Longrightarrow> rollingBall (JSArray spectrum) options = Inr (baseline_of spectrum options)"
  by (simp add: rollingBall_def checkSpectrum_def isAnyArray_def array_elements_def)

subsection \<open>Sub-ranges of an array\<close>

lemma subarray_eq_map_nth: "e \<le> length a \<Longrightarrow> subarray a b e = map ((!) a) [b ..< e]"
  by (rule nth_equalityI) (auto simp: subarray_def)

lemma set_subarray: "e \<le> length a \<Longrightarrow> set (subarray a b e) = (!) a ` {b ..< e}"
  by (simp add: subarray_eq_map_nth)

lemma set_subarray_subset: "set (subarray a b e) \<subseteq> set a"
proof -
  have "set (subarray a b e) \<subseteq> set (drop b a)"
    unfolding subarray_def by (rule set_take_subset)
  also have "\<dots> \<subseteq> set a" by (rule set_drop_subset)
  finally show ?thesis .
qed

lemma subarray_nonempty: "b < e \<Longrightarrow> e \<le> length a \<Longrightarrow> subarray a b e \<noteq> []"
  by (simp add: subarray_eq_map_nth)

lemma nth_in_subarray:
  "b \<le> i \<Longrightarrow> i < e \<Longrightarrow> e \<le> length a \<Longrightarrow> a ! i \<in> set (subarray a b e)"
  by (simp add: set_subarray)

lemma subarray_single: "i < length a \<Longrightarrow> subarray a i (Suc i) = [a ! i]"
  by (simp add: subarray_eq_map_nth)

lemma subarray_whole: "subarray a 0 (length a) = a"
  by (simp add: subarray_def)

lemma subarray_replicate: "e \<le> n \<Longrightarrow> subarray (replicate n c) b e = replicate (e - b) c"
  by (simp add: subarray_def min_def)

lemma subarray_Cons:
  "b < e \<Longrightarrow> e \<le> length a \<Longrightarrow> subarray a b e = a ! b # subarray a (b + 1) e"
  by (simp add: subarray_eq_map_nth upt_conv_Cons)

subsection \<open>What the helpers read\<close>

text \<open>
  Called with the bounds of a window, \<open>b < e \<le> length\<close>, the helpers scan the values at
  \<open>b\<close> up to and including \<open>e\<close>, clamped to the last index: one value more than
  \<^verbatim>\<open>subarray(b, e)\<close> holds, unless the window ends with the array.
\<close>

lemma xGetFromToIndex_window:
  "b < e \<Longrightarrow> e \<le> length a \<Longrightarrow> xGetFromToIndex a b e = (b, min e (length a - 1))"
  by (auto simp: xGetFromToIndex_def Let_def)

lemma xMinValue_window:
  assumes "b < e" and "e \<le> length a"
  shows "xMinValue a b e = sequence_min (subarray a b (min (e + 1) (length a)))"
proof -
  from assms have ne: "a \<noteq> []" by auto
  have t: "Suc (min e (length a - Suc 0)) = min (Suc e) (length a)"
    using assms by auto
  have "subarray a b (min (e + 1) (length a)) =
      a ! b # subarray a (b + 1) (min (e + 1) (length a))"
    using assms by (intro subarray_Cons) auto
  then show ?thesis
    using ne by (simp add: xMinValue_def xGetFromToIndex_window [OF assms] t sequence_min_def)
qed

lemma xMaxValue_window:
  assumes "b < e" and "e \<le> length a"
  shows "xMaxValue a b e = sequence_max (subarray a b (min (e + 1) (length a)))"
proof -
  from assms have ne: "a \<noteq> []" by auto
  have t: "Suc (min e (length a - Suc 0)) = min (Suc e) (length a)"
    using assms by auto
  have "subarray a b (min (e + 1) (length a)) =
      a ! b # subarray a (b + 1) (min (e + 1) (length a))"
    using assms by (intro subarray_Cons) auto
  then show ?thesis
    using ne by (simp add: xMaxValue_def xGetFromToIndex_window [OF assms] t sequence_max_def)
qed

text \<open>
  So the first two passes take the minimum and the maximum over the index range
  \<open>[max(0, i - windowM), min(i + windowM + 2, N))\<close>, and the third pass the mean over
  \<open>[max(0, i - windowS), min(i + windowS + 1, N))\<close>.
\<close>

lemma minima_of_nth:
  assumes "i < length spectrum"
  shows "minima_of spectrum options ! i =
    sequence_min (subarray spectrum
      (windowLeft_of (resolved_windowM (length spectrum) options) i)
      (min (windowRight_of (length spectrum) (resolved_windowM (length spectrum) options) i + 1)
         (length spectrum)))"
  using assms by (simp add: minima_of_eq xMinValue_window window_lt windowRight_le)

lemma maxima_of_nth:
  assumes "i < length spectrum"
  shows "maxima_of spectrum options ! i =
    sequence_max (subarray (minima_of spectrum options)
      (windowLeft_of (resolved_windowM (length spectrum) options) i)
      (min (windowRight_of (length spectrum) (resolved_windowM (length spectrum) options) i + 1)
         (length spectrum)))"
  using assms
  by (simp add: maxima_of_eq xMaxValue_window window_lt windowRight_le length_minima_of)

lemma baseline_of_nth:
  assumes "i < length spectrum"
  shows "baseline_of spectrum options ! i =
    xMean (subarray (maxima_of spectrum options)
      (windowLeft_of (resolved_windowS (length spectrum) options) i)
      (windowRight_of (length spectrum) (resolved_windowS (length spectrum) options) i))"
  using assms by (simp add: baseline_of_eq)

subsection \<open>Minimum and maximum of a sequence\<close>

lemma foldl_min_lower:
  assumes "\<forall>v \<in> S. \<not> double_less v m"
  shows "\<forall>v \<in> S \<union> {m} \<union> set vs.
    \<not> double_less v (foldl (\<lambda>m v. if double_less v m then v else m) m vs)"
  using assms
proof (induction vs arbitrary: m S)
  case Nil
  then show ?case by (simp add: double_less_irrefl)
next
  case (Cons x xs)
  let ?m = "if double_less x m then x else m"
  have "\<forall>v \<in> S \<union> {m, x}. \<not> double_less v ?m"
    using Cons.prems
    by (auto simp: double_less_irrefl dest: double_less_trans double_less_asym)
  from Cons.IH [OF this] show ?case
    by auto
qed

lemma foldl_max_upper:
  assumes "\<forall>v \<in> S. \<not> double_less m v"
  shows "\<forall>v \<in> S \<union> {m} \<union> set vs.
    \<not> double_less (foldl (\<lambda>m v. if double_less m v then v else m) m vs) v"
  using assms
proof (induction vs arbitrary: m S)
  case Nil
  then show ?case by (simp add: double_less_irrefl)
next
  case (Cons x xs)
  let ?m = "if double_less m x then x else m"
  have "\<forall>v \<in> S \<union> {m, x}. \<not> double_less ?m v"
    using Cons.prems
    by (auto simp: double_less_irrefl dest: double_less_trans double_less_asym)
  from Cons.IH [OF this] show ?case
    by auto
qed

lemma foldl_min_member:
  "foldl (\<lambda>m v. if double_less v m then v else m) m vs \<in> insert m (set vs)"
  by (induction vs arbitrary: m) auto

lemma sequence_min_lower: "v \<in> set vs \<Longrightarrow> \<not> double_less v (sequence_min vs)"
  using foldl_min_lower [of "{}" "hd vs" "tl vs"]
  by (cases vs) (auto simp: sequence_min_def)

lemma sequence_max_upper: "v \<in> set vs \<Longrightarrow> \<not> double_less (sequence_max vs) v"
  using foldl_max_upper [of "{}" "hd vs" "tl vs"]
  by (cases vs) (auto simp: sequence_max_def)

lemma sequence_min_member: "vs \<noteq> [] \<Longrightarrow> sequence_min vs \<in> set vs"
  using foldl_min_member [of "hd vs" "tl vs"]
  by (cases vs) (auto simp: sequence_min_def)

lemma foldl_replicate_same: "f c c = c \<Longrightarrow> foldl f c (replicate k c) = c"
  by (induction k) simp_all

lemma sequence_min_replicate: "0 < k \<Longrightarrow> sequence_min (replicate k c) = c"
  by (cases k) (simp_all add: sequence_min_def foldl_replicate_same)

lemma sequence_max_replicate: "0 < k \<Longrightarrow> sequence_max (replicate k c) = c"
  by (cases k) (simp_all add: sequence_max_def foldl_replicate_same)

section \<open>Length, errors, defaults\<close>

text \<open>
  C2. For a non-empty signal and any options, \<open>rollingBall\<close> returns a sequence, and its
  length is the length of the signal.
\<close>

theorem rollingBall_length:
  "spectrum \<noteq> [] \<Longrightarrow>
   \<exists>baseline. rollingBall (JSArray spectrum) options = Inr baseline
     \<and> length baseline = length spectrum"
  by (simp add: rollingBall_array length_baseline_of)

theorem rollingBall_length_witness:
  "[double_of_int 5, double_of_int 1, double_of_int 7] \<noteq> []
   \<and> (\<exists>baseline.
        rollingBall (JSArray [double_of_int 5, double_of_int 1, double_of_int 7])
          \<lparr>windowM = None, windowS = Some 4\<rparr> = Inr baseline
        \<and> length baseline = length [double_of_int 5, double_of_int 1, double_of_int 7])"
  using rollingBall_length [of "[double_of_int 5, double_of_int 1, double_of_int 7]"
      "\<lparr>windowM = None, windowS = Some 4\<rparr>"] by simp

text \<open>
  C3. On the empty array \<open>rollingBall\<close> raises \<open>EmptyInputError\<close> (no baseline, empty or
  other, is returned); on an array with at least one element it does not; and the empty
  array is the only input on which it raises this error.
\<close>

theorem rollingBall_empty:
  "rollingBall (JSArray []) options = Inl EmptyInputError
   \<and> rollingBall (JSArray (x # xs)) options \<noteq> Inl EmptyInputError
   \<and> (rollingBall v options = Inl EmptyInputError) = (v = JSArray [])"
  by (cases v)
     (auto simp: rollingBall_def checkSpectrum_def isAnyArray_def array_elements_def
           split: if_splits)

text \<open>
  C4, as claimed, fails: the checks accept an array whose elements are not numbers (here
  two strings) and hand it on; no \<open>InvalidInputError\<close> is raised for it.
\<close>

theorem checks_accept_nonnumeric:
  "checkSpectrum (JSArray [''a'', ''b'']) = Inr [''a'', ''b'']
   \<and> checkSpectrum (JSArray [''a'', ''b'']) \<noteq> Inl InvalidInputError"
  by (simp add: checkSpectrum_def isAnyArray_def array_elements_def)

text \<open>
  C4, amended. \<open>rollingBall\<close> raises \<open>InvalidInputError\<close> exactly when its argument is not
  an array (null, undefined, a number, a string, ...); this is the first check, before
  anything is computed. The checks do not look at the elements: for arrays of any
  element type, \<open>InvalidInputError\<close> is raised for no array.
\<close>

theorem invalid_iff_not_array:
  "(rollingBall v options = Inl InvalidInputError) = (\<forall>xs. v \<noteq> JSArray xs)
   \<and> (checkSpectrum w = Inl InvalidInputError) = (\<forall>es. w \<noteq> JSArray es)"
  by (cases v; cases w)
     (auto simp: rollingBall_def checkSpectrum_def isAnyArray_def array_elements_def
           split: if_splits)

text \<open>
  The default radii in integers: \<open>N \<times> 0.04\<close> and \<open>N \<times> 0.08\<close> are never halfway between
  two integers (they are multiples of \<open>1/25\<close>), so every rounding-to-nearest rule gives
  the same radius.
\<close>

lemma Math_round_4_percent: "Math_round (real n * (4 / 100)) = (2 * n + 25) div 50"
proof -
  have "real n * (4 / 100) + 1 / 2 = real (2 * n + 25) / real 50" by simp
  then show ?thesis
    unfolding Math_round_def by (simp only: floor_divide_of_nat_eq nat_int)
qed

lemma Math_round_8_percent: "Math_round (real n * (8 / 100)) = (4 * n + 25) div 50"
proof -
  have "real n * (8 / 100) + 1 / 2 = real (4 * n + 25) / real 50" by simp
  then show ?thesis
    unfolding Math_round_def by (simp only: floor_divide_of_nat_eq nat_int)
qed

text \<open>
  C5. An omitted \<open>windowM\<close> is \<open>round(N \<times> 0.04)\<close> and an omitted \<open>windowS\<close> is
  \<open>round(N \<times> 0.08)\<close>: the result with an option omitted is the result with that radius
  passed, for both options together and for each alone.
\<close>

theorem rollingBall_defaults:
  "rollingBall (JSArray spectrum) \<lparr>windowM = None, windowS = None\<rparr> =
     rollingBall (JSArray spectrum)
       \<lparr>windowM = Some (Math_round (real (length spectrum) * (4 / 100))),
        windowS = Some (Math_round (real (length spectrum) * (8 / 100)))\<rparr>
   \<and> rollingBall (JSArray spectrum) \<lparr>windowM = None, windowS = s\<rparr> =
     rollingBall (JSArray spectrum)
       \<lparr>windowM = Some (Math_round (real (length spectrum) * (4 / 100))), windowS = s\<rparr>
   \<and> rollingBall (JSArray spectrum) \<lparr>windowM = m, windowS = None\<rparr> =
     rollingBall (JSArray spectrum)
       \<lparr>windowM = m, windowS = Some (Math_round (real (length spectrum) * (8 / 100)))\<rparr>"
  by (simp add: rollingBall_def checkSpectrum_def isAnyArray_def array_elements_def
        baseline_of_def rollingBall_arrays_def Let_def)

section \<open>Constant arrays\<close>

text \<open>
  A constant array stays constant through the first two passes, whatever the helpers
  read; the third pass averages copies of the constant.
\<close>

lemma window_read_nonempty:
  "i < n \<Longrightarrow> windowLeft_of r i < min (windowRight_of n r i + 1) n"
  using window_nonempty [of i n r] by simp

lemma minima_of_replicate: "minima_of (replicate n c) options = replicate n c"
proof (rule nth_equalityI)
  show "length (minima_of (replicate n c) options) = length (replicate n c)"
    by (simp add: length_minima_of)
next
  fix i assume "i < length (minima_of (replicate n c) options)"
  then have i: "i < n" by (simp add: length_minima_of)
  from i window_read_nonempty [OF i]
  show "minima_of (replicate n c) options ! i = replicate n c ! i"
    by (simp add: minima_of_nth subarray_replicate sequence_min_replicate)
qed

lemma maxima_of_constant:
  assumes "minima_of spectrum options = replicate (length spectrum) c"
  shows "maxima_of spectrum options = replicate (length spectrum) c"
proof (rule nth_equalityI)
  show "length (maxima_of spectrum options) = length (replicate (length spectrum) c)"
    by (simp add: length_maxima_of)
next
  fix i assume "i < length (maxima_of spectrum options)"
  then have i: "i < length spectrum" by (simp add: length_maxima_of)
  from i window_read_nonempty [OF i]
  show "maxima_of spectrum options ! i = replicate (length spectrum) c ! i"
    by (simp add: maxima_of_nth assms subarray_replicate sequence_max_replicate)
qed

lemma baseline_of_constant:
  assumes "maxima_of spectrum options = replicate (length spectrum) c"
  shows "baseline_of spectrum options =
    map (\<lambda>i. xMean (replicate
           (windowRight_of (length spectrum) (resolved_windowS (length spectrum) options) i
              - windowLeft_of (resolved_windowS (length spectrum) options) i) c))
      [0 ..< length spectrum]"
  by (rule nth_equalityI)
     (simp_all add: length_baseline_of baseline_of_nth assms subarray_replicate windowRight_le)

lemma zero_window: "i < n \<Longrightarrow> windowLeft_of 0 i = i \<and> windowRight_of n 0 i = Suc i"
  by (simp add: windowLeft_of_def windowRight_of_def)

lemma baseline_of_constant_zero:
  assumes "maxima_of spectrum \<lparr>windowM = m, windowS = Some 0\<rparr> = replicate (length spectrum) c"
  shows "baseline_of spectrum \<lparr>windowM = m, windowS = Some 0\<rparr> = replicate (length spectrum) c"
  by (rule nth_equalityI)
     (simp_all add: length_baseline_of baseline_of_nth assms subarray_replicate windowRight_le
        zero_window xMean_single)

text \<open>
  C9. For a signal of one point and any options, every window is \<open>[0, 1)\<close>, the whole
  array, whatever the radius; \<open>minima\<close>, \<open>maxima\<close> and the returned baseline are the
  one-element sequence of that point.
\<close>

theorem single_point:
  "rollingBall (JSArray [x]) options = Inr [x]
   \<and> minima_of [x] options = [x] \<and> maxima_of [x] options = [x]
   \<and> windowLeft_of radius 0 = 0 \<and> windowRight_of 1 radius 0 = 1"
proof -
  have mi: "minima_of [x] options = replicate (length [x]) x"
    using minima_of_replicate [of 1 x options] by simp
  have ma: "maxima_of [x] options = replicate (length [x]) x"
    by (rule maxima_of_constant [OF mi])
  have "baseline_of [x] options = [x]"
    by (simp add: baseline_of_constant [OF ma] windowLeft_of_def windowRight_of_def xMean_single)
  with mi ma show ?thesis
    by (simp add: rollingBall_array windowLeft_of_def windowRight_of_def)
qed

lemma baseline_three_tenths:
  assumes "maxima_of spectrum \<lparr>windowM = m, windowS = Some 1\<rparr> =
      replicate 3 (double_of_ratio 1 10)"
    and "length spectrum = 3"
  shows "baseline_of spectrum \<lparr>windowM = m, windowS = Some 1\<rparr> =
    [double_of_ratio 1 10, double_of_ratio 10000000000000002 100000000000000000,
     double_of_ratio 1 10]"
proof -
  have m: "maxima_of spectrum \<lparr>windowM = m, windowS = Some 1\<rparr> =
      replicate (length spectrum) (double_of_ratio 1 10)"
    using assms by simp
  show ?thesis
    by (subst baseline_of_constant [OF m])
       (simp add: assms(2) upt_conv_Cons windowLeft_of_def windowRight_of_def
          numeral_3_eq_3 numeral_2_eq_2 xMean_three_tenths xMean_two_tenths)
qed

text \<open>
  C7, as claimed, fails for the baseline: the signal \<^verbatim>\<open>[0.1, 0.1, 0.1]\<close> with both radii
  1 has the baseline \<^verbatim>\<open>[0.1, 0.10000000000000002, 0.1]\<close>. The middle window holds three
  values; their sum is rounded twice and the quotient once more.
\<close>

theorem constant_tenth_baseline:
  "rollingBall (JSArray (replicate 3 (double_of_ratio 1 10)))
     \<lparr>windowM = Some 1, windowS = Some 1\<rparr> =
     Inr [double_of_ratio 1 10, double_of_ratio 10000000000000002 100000000000000000,
          double_of_ratio 1 10]
   \<and> rollingBall (JSArray (replicate 3 (double_of_ratio 1 10)))
     \<lparr>windowM = Some 1, windowS = Some 1\<rparr> \<noteq> Inr (replicate 3 (double_of_ratio 1 10))"
proof -
  let ?t = "double_of_ratio 1 10"
  let ?o = "\<lparr>windowM = Some 1, windowS = Some 1\<rparr>"
  have mi: "minima_of (replicate 3 ?t) ?o = replicate (length (replicate 3 ?t)) ?t"
    by (simp add: minima_of_replicate)
  have "maxima_of (replicate 3 ?t) ?o = replicate (length (replicate 3 ?t)) ?t"
    by (rule maxima_of_constant [OF mi])
  then have "maxima_of (replicate 3 ?t) ?o = replicate 3 ?t" by simp
  then have "baseline_of (replicate 3 ?t) ?o =
      [?t, double_of_ratio 10000000000000002 100000000000000000, ?t]"
    by (rule baseline_three_tenths) simp
  then show ?thesis
    by (simp add: rollingBall_array numeral_3_eq_3 tenth_neq_next)
qed

text \<open>
  C7, amended. For a constant signal of \<open>n \<ge> 1\<close> points, all equal to \<open>c\<close>, and any
  options (radii given or defaulted), \<open>minima\<close> and \<open>maxima\<close> consist of \<open>n\<close> copies of
  \<open>c\<close>, and \<open>baseline[i]\<close> is the double-precision mean of as many copies of \<open>c\<close> as the
  clipped smoothing window of \<open>i\<close> is wide. With \<open>windowS = 0\<close> every such window holds
  one value and the baseline consists of \<open>n\<close> copies of \<open>c\<close>.
\<close>

theorem constant_signal:
  assumes "0 < n"
  shows "minima_of (replicate n c) options = replicate n c
       \<and> maxima_of (replicate n c) options = replicate n c
       \<and> rollingBall (JSArray (replicate n c)) options =
           Inr (map (\<lambda>i. xMean (replicate
                  (windowRight_of n (resolved_windowS n options) i
                     - windowLeft_of (resolved_windowS n options) i) c))
                [0 ..< n])
       \<and> rollingBall (JSArray (replicate n c)) \<lparr>windowM = m, windowS = Some 0\<rparr> =
           Inr (replicate n c)"
proof -
  have mi: "minima_of (replicate n c) opts = replicate (length (replicate n c)) c" for opts
    by (simp add: minima_of_replicate)
  have ma: "maxima_of (replicate n c) opts = replicate (length (replicate n c)) c" for opts
    by (rule maxima_of_constant [OF mi])
  have b: "baseline_of (replicate n c) options =
      map (\<lambda>i. xMean (replicate
             (windowRight_of n (resolved_windowS n options) i
                - windowLeft_of (resolved_windowS n options) i) c))
        [0 ..< n]"
    using baseline_of_constant [OF ma] by simp
  have b0: "baseline_of (replicate n c) \<lparr>windowM = m, windowS = Some 0\<rparr> = replicate n c"
    using baseline_of_constant_zero [OF ma] by simp
  from assms have "replicate n c \<noteq> []" by simp
  with mi ma b b0 show ?thesis
    by (simp add: rollingBall_array)
qed

theorem constant_signal_witness:
  "(0 :: nat) < 3
   \<and> minima_of (replicate 3 (double_of_int 2)) \<lparr>windowM = Some 1, windowS = Some 0\<rparr> =
       replicate 3 (double_of_int 2)
   \<and> rollingBall (JSArray (replicate 3 (double_of_int 2))) \<lparr>windowM = Some 1, windowS = Some 0\<rparr> =
       Inr (replicate 3 (double_of_int 2))"
proof -
  have pos: "(0 :: nat) < 3" by simp
  from pos constant_signal [OF pos, of "double_of_int 2"
      "\<lparr>windowM = Some 1, windowS = Some 0\<rparr>" "Some 1"]
  show ?thesis by blast
qed

section \<open>The window of the first two passes\<close>

text \<open>
  Lines 59 and 70 compute \<open>windowRight\<close> as an exclusive bound, clipped at the length,
  and line 80 uses the same bound so, through \<^verbatim>\<open>subarray\<close>. Lines 61 and 71 pass it as
  \<^verbatim>\<open>toIndex\<close>, which the helpers read inclusively: unless the window ends with the
  array, the first two passes take in the value one past the window.
\<close>

lemma small_ints [simp]:
  "double_less (double_of_int 1) (double_of_int 5)"
  "\<not> double_less (double_of_int 5) (double_of_int 1)"
  "double_less (double_of_int 1) (double_of_int 7)"
  "\<not> double_less (double_of_int 7) (double_of_int 1)"
  "double_less (double_of_int 5) (double_of_int 7)"
  "\<not> double_less (double_of_int 7) (double_of_int 5)"
  by (simp_all add: double_less_of_int)

lemma one_neq_five: "double_of_int 1 \<noteq> double_of_int 5"
  using small_ints(1) double_less_irrefl by metis

lemma minima_5_1_7:
  "minima_of [double_of_int 5, double_of_int 1, double_of_int 7] \<lparr>windowM = Some 0, windowS = s\<rparr> =
     [double_of_int 1, double_of_int 1, double_of_int 7]"
  by (simp add: minima_of_eq upt_conv_Cons windowLeft_of_def windowRight_of_def xMinValue_def
        xGetFromToIndex_def subarray_def double_less_irrefl)

lemma maxima_5_1_7:
  "maxima_of [double_of_int 5, double_of_int 1, double_of_int 7] \<lparr>windowM = Some 0, windowS = s\<rparr> =
     [double_of_int 1, double_of_int 7, double_of_int 7]"
  by (simp add: maxima_of_eq minima_5_1_7 upt_conv_Cons windowLeft_of_def windowRight_of_def
        xMaxValue_def xGetFromToIndex_def subarray_def double_less_irrefl)

lemma baseline_5_1_7:
  "baseline_of [double_of_int 5, double_of_int 1, double_of_int 7]
     \<lparr>windowM = Some 0, windowS = Some 0\<rparr> =
     [double_of_int 1, double_of_int 7, double_of_int 7]"
  by (simp add: baseline_of_eq maxima_5_1_7 upt_conv_Cons windowLeft_of_def windowRight_of_def
        subarray_def xMean_single)

lemma spec_5_1_7:
  "computeBaseline_spec [double_of_int 5, double_of_int 1, double_of_int 7] 0 0 =
     [double_of_int 5, double_of_int 1, double_of_int 7]"
  by (simp add: computeBaseline_spec_def spec_maxima_def spec_minima_def spec_window_def
        upt_conv_Cons subarray_def sequence_min_def sequence_max_def xMean_single)

text \<open>
  C1 does not hold of the code: for the signal \<open>[5, 1, 7]\<close> with both radii 0 the
  function returns \<open>[1, 7, 7]\<close>, where the three-pass reference definition of the
  specification gives \<open>[5, 1, 7]\<close>.
\<close>

theorem window_reads_one_more:
  "rollingBall (JSArray [double_of_int 5, double_of_int 1, double_of_int 7])
     \<lparr>windowM = Some 0, windowS = Some 0\<rparr> =
     Inr [double_of_int 1, double_of_int 7, double_of_int 7]
   \<and> computeBaseline_spec [double_of_int 5, double_of_int 1, double_of_int 7] 0 0 =
     [double_of_int 5, double_of_int 1, double_of_int 7]
   \<and> rollingBall (JSArray [double_of_int 5, double_of_int 1, double_of_int 7])
     \<lparr>windowM = Some 0, windowS = Some 0\<rparr> \<noteq>
     Inr (computeBaseline_spec [double_of_int 5, double_of_int 1, double_of_int 7] 0 0)"
  by (simp add: rollingBall_array baseline_5_1_7 spec_5_1_7 one_neq_five)

text \<open>
  C6 does not hold of the code: for the signal \<open>[5, 1, 7]\<close> with \<open>windowM = 0\<close> the
  bounds of index 0 are \<open>windowLeft = 0\<close> and \<open>windowRight = 1\<close>, a window of width 1, but
  the helper called with them reads two values and returns 1; \<open>minima\<close> is
  \<open>[1, 1, 7]\<close> and \<open>maxima\<close> is \<open>[1, 7, 7]\<close>, not the signal.
\<close>

theorem zero_radius_reads_two:
  "minima_of [double_of_int 5, double_of_int 1, double_of_int 7] \<lparr>windowM = Some 0, windowS = s\<rparr> =
     [double_of_int 1, double_of_int 1, double_of_int 7]
   \<and> maxima_of [double_of_int 5, double_of_int 1, double_of_int 7] \<lparr>windowM = Some 0, windowS = s\<rparr> =
     [double_of_int 1, double_of_int 7, double_of_int 7]
   \<and> windowLeft_of 0 0 = 0 \<and> windowRight_of 3 0 0 = 1
   \<and> xMinValue [double_of_int 5, double_of_int 1, double_of_int 7] 0 1 = double_of_int 1
   \<and> minima_of [double_of_int 5, double_of_int 1, double_of_int 7]
       \<lparr>windowM = Some 0, windowS = s\<rparr> \<noteq>
     [double_of_int 5, double_of_int 1, double_of_int 7]"
  by (simp add: minima_5_1_7 maxima_5_1_7 windowLeft_of_def windowRight_of_def xMinValue_def
        xGetFromToIndex_def subarray_def one_neq_five)

section \<open>A radius that covers the whole signal\<close>

lemma wide_window:
  "i < n \<Longrightarrow> n - 1 \<le> r \<Longrightarrow> windowLeft_of r i = 0 \<and> windowRight_of n r i = n"
  by (auto simp: windowLeft_of_def windowRight_of_def)

lemma minima_of_wide:
  assumes "length spectrum - 1 \<le> wM"
  shows "minima_of spectrum \<lparr>windowM = Some wM, windowS = s\<rparr> =
    replicate (length spectrum) (sequence_min spectrum)"
proof (rule nth_equalityI)
  show "length (minima_of spectrum \<lparr>windowM = Some wM, windowS = s\<rparr>) =
      length (replicate (length spectrum) (sequence_min spectrum))"
    by (simp add: length_minima_of)
next
  fix i assume "i < length (minima_of spectrum \<lparr>windowM = Some wM, windowS = s\<rparr>)"
  then have i: "i < length spectrum" by (simp add: length_minima_of)
  from i wide_window [OF i assms]
  show "minima_of spectrum \<lparr>windowM = Some wM, windowS = s\<rparr> ! i =
      replicate (length spectrum) (sequence_min spectrum) ! i"
    by (simp add: minima_of_nth subarray_whole)
qed

lemma Rep_half:
  "Rep_double (double_of_ratio 1 2) = Finite (4503599627370496 * 2 ^ 1021)"
  unfolding Rep_double_of_ratio
  by (subst round_to_binary64_eval [where q = 4503599627370496 and s = 1021 and r = 0])
     simp_all

lemma Rep_three_tenths:
  "Rep_double (double_of_ratio 3 10) = Finite (5404319552844595 * 2 ^ 1020)"
  unfolding Rep_double_of_ratio
  by (subst round_to_binary64_eval
        [where q = 5404319552844595 and s = 1020 and r = "2 * 2 ^ 1020"])
     simp_all

lemma tenth_is_least:
  "sequence_min [double_of_ratio 1 10, double_of_ratio 1 2, double_of_ratio 3 10] =
     double_of_ratio 1 10"
  by (simp add: sequence_min_def double_less_def Rep_tenth Rep_half Rep_three_tenths)

text \<open>
  C10, as claimed, fails for the baseline: the signal \<^verbatim>\<open>[0.1, 0.5, 0.3]\<close> with
  \<open>windowM = 2\<close> and \<open>windowS = 1\<close> has \<open>minima\<close> and \<open>maxima\<close> constant at \<^verbatim>\<open>0.1\<close>, the
  least value, and the baseline \<^verbatim>\<open>[0.1, 0.10000000000000002, 0.1]\<close>.
\<close>

theorem wide_window_baseline_rounds:
  "minima_of [double_of_ratio 1 10, double_of_ratio 1 2, double_of_ratio 3 10]
     \<lparr>windowM = Some 2, windowS = Some 1\<rparr> = replicate 3 (double_of_ratio 1 10)
   \<and> maxima_of [double_of_ratio 1 10, double_of_ratio 1 2, double_of_ratio 3 10]
     \<lparr>windowM = Some 2, windowS = Some 1\<rparr> = replicate 3 (double_of_ratio 1 10)
   \<and> rollingBall (JSArray [double_of_ratio 1 10, double_of_ratio 1 2, double_of_ratio 3 10])
     \<lparr>windowM = Some 2, windowS = Some 1\<rparr> =
     Inr [double_of_ratio 1 10, double_of_ratio 10000000000000002 100000000000000000,
          double_of_ratio 1 10]
   \<and> rollingBall (JSArray [double_of_ratio 1 10, double_of_ratio 1 2, double_of_ratio 3 10])
     \<lparr>windowM = Some 2, windowS = Some 1\<rparr> \<noteq> Inr (replicate 3 (double_of_ratio 1 10))"
proof -
  let ?t = "double_of_ratio 1 10"
  let ?x = "[?t, double_of_ratio 1 2, double_of_ratio 3 10]"
  let ?o = "\<lparr>windowM = Some 2, windowS = Some 1\<rparr>"
  have "minima_of ?x ?o = replicate (length ?x) (sequence_min ?x)"
    by (rule minima_of_wide) simp
  then have mi: "minima_of ?x ?o = replicate (length ?x) ?t"
    by (simp only: tenth_is_least)
  have ma: "maxima_of ?x ?o = replicate (length ?x) ?t"
    by (rule maxima_of_constant [OF mi])
  then have ma3: "maxima_of ?x ?o = replicate 3 ?t" by (simp add: numeral_3_eq_3)
  then have b: "baseline_of ?x ?o =
      [?t, double_of_ratio 10000000000000002 100000000000000000, ?t]"
    by (rule baseline_three_tenths) simp
  from mi ma3 b show ?thesis
    by (simp add: rollingBall_array numeral_3_eq_3 tenth_neq_next)
qed

text \<open>
  C10, amended. For a non-empty signal of \<open>N\<close> points and \<open>windowM \<ge> N - 1\<close>, \<open>minima\<close>
  and \<open>maxima\<close> consist of \<open>N\<close> copies of the least value of the signal (a value of the
  signal that no value of the signal is less than), for every \<open>windowS\<close>, given or
  defaulted; \<open>baseline[i]\<close> is the double-precision mean of as many copies of that
  value as the clipped smoothing window of \<open>i\<close> is wide, and with \<open>windowS = 0\<close> the
  baseline consists of \<open>N\<close> copies of it.
\<close>

theorem wide_window_global_minimum:
  assumes "spectrum \<noteq> []" and "length spectrum - 1 \<le> wM"
  shows "minima_of spectrum \<lparr>windowM = Some wM, windowS = s\<rparr> =
           replicate (length spectrum) (sequence_min spectrum)
       \<and> maxima_of spectrum \<lparr>windowM = Some wM, windowS = s\<rparr> =
           replicate (length spectrum) (sequence_min spectrum)
       \<and> sequence_min spectrum \<in> set spectrum
       \<and> (\<forall>v \<in> set spectrum. \<not> double_less v (sequence_min spectrum))
       \<and> rollingBall (JSArray spectrum) \<lparr>windowM = Some wM, windowS = s\<rparr> =
           Inr (map (\<lambda>i. xMean (replicate
                  (windowRight_of (length spectrum)
                       (resolved_windowS (length spectrum) \<lparr>windowM = Some wM, windowS = s\<rparr>) i
                     - windowLeft_of
                       (resolved_windowS (length spectrum) \<lparr>windowM = Some wM, windowS = s\<rparr>) i)
                  (sequence_min spectrum)))
                [0 ..< length spectrum])
       \<and> rollingBall (JSArray spectrum) \<lparr>windowM = Some wM, windowS = Some 0\<rparr> =
           Inr (replicate (length spectrum) (sequence_min spectrum))"
proof -
  have mi: "minima_of spectrum \<lparr>windowM = Some wM, windowS = s'\<rparr> =
      replicate (length spectrum) (sequence_min spectrum)" for s'
    by (rule minima_of_wide [OF assms(2)])
  have ma: "maxima_of spectrum \<lparr>windowM = Some wM, windowS = s'\<rparr> =
      replicate (length spectrum) (sequence_min spectrum)" for s'
    by (rule maxima_of_constant [OF mi])
  note b = baseline_of_constant [OF ma [of s]]
  note b0 = baseline_of_constant_zero [OF ma [of "Some 0"]]
  have mem: "sequence_min spectrum \<in> set spectrum"
    by (rule sequence_min_member [OF assms(1)])
  have low: "\<forall>v \<in> set spectrum. \<not> double_less v (sequence_min spectrum)"
    by (simp add: sequence_min_lower)
  from assms(1) mi ma mem low show ?thesis
    by (simp add: rollingBall_array b b0)
qed

theorem wide_window_global_minimum_witness:
  "[double_of_int 5, double_of_int 1, double_of_int 7] \<noteq> []
   \<and> length [double_of_int 5, double_of_int 1, double_of_int 7] - 1 \<le> (2 :: nat)
   \<and> rollingBall (JSArray [double_of_int 5, double_of_int 1, double_of_int 7])
       \<lparr>windowM = Some 2, windowS = Some 0\<rparr> =
     Inr (replicate 3 (sequence_min [double_of_int 5, double_of_int 1, double_of_int 7]))
   \<and> sequence_min [double_of_int 5, double_of_int 1, double_of_int 7] = double_of_int 1"
proof -
  have a: "[double_of_int 5, double_of_int 1, double_of_int 7] \<noteq> []" by simp
  have b: "length [double_of_int 5, double_of_int 1, double_of_int 7] - 1 \<le> (2 :: nat)" by simp
  have c: "sequence_min [double_of_int 5, double_of_int 1, double_of_int 7] = double_of_int 1"
    by (simp add: sequence_min_def)
  have l: "length [double_of_int 5, double_of_int 1, double_of_int 7] = 3" by simp
  from a b c wide_window_global_minimum [OF a b, of "Some 0"] show ?thesis
    unfolding l by blast
qed

section \<open>Baseline values\<close>

text \<open>
  C8, as claimed, fails: for the signal \<^verbatim>\<open>[0.1, 0.1, 0.1]\<close> with both radii 1 every
  value of \<open>maxima\<close> is \<^verbatim>\<open>0.1\<close>, and \<open>baseline[1]\<close> is \<^verbatim>\<open>0.10000000000000002\<close>, above
  the greatest of them.
\<close>

theorem baseline_above_maxima:
  "maxima_of [double_of_ratio 1 10, double_of_ratio 1 10, double_of_ratio 1 10]
     \<lparr>windowM = Some 1, windowS = Some 1\<rparr> =
     [double_of_ratio 1 10, double_of_ratio 1 10, double_of_ratio 1 10]
   \<and> rollingBall (JSArray [double_of_ratio 1 10, double_of_ratio 1 10, double_of_ratio 1 10])
     \<lparr>windowM = Some 1, windowS = Some 1\<rparr> =
     Inr (baseline_of [double_of_ratio 1 10, double_of_ratio 1 10, double_of_ratio 1 10]
            \<lparr>windowM = Some 1, windowS = Some 1\<rparr>)
   \<and> baseline_of [double_of_ratio 1 10, double_of_ratio 1 10, double_of_ratio 1 10]
     \<lparr>windowM = Some 1, windowS = Some 1\<rparr> ! 1 =
     double_of_ratio 10000000000000002 100000000000000000
   \<and> double_less (double_of_ratio 1 10)
        (double_of_ratio 10000000000000002 100000000000000000)"
proof -
  let ?t = "double_of_ratio 1 10"
  let ?o = "\<lparr>windowM = Some 1, windowS = Some 1\<rparr>"
  have r: "[?t, ?t, ?t] = replicate 3 ?t" by (simp add: numeral_3_eq_3)
  have mi: "minima_of (replicate 3 ?t) ?o = replicate (length (replicate 3 ?t)) ?t"
    by (simp add: minima_of_replicate)
  have "maxima_of (replicate 3 ?t) ?o = replicate (length (replicate 3 ?t)) ?t"
    by (rule maxima_of_constant [OF mi])
  then have ma: "maxima_of (replicate 3 ?t) ?o = replicate 3 ?t" by simp
  then have b: "baseline_of (replicate 3 ?t) ?o =
      [?t, double_of_ratio 10000000000000002 100000000000000000, ?t]"
    by (rule baseline_three_tenths) simp
  show ?thesis
    unfolding r using ma b tenth_less_next
    by (simp add: rollingBall_array)
qed

text \<open>
  C8, amended. For a non-empty signal, any options and every index \<open>i\<close>:
  \<open>baseline[i]\<close> is the unweighted mean, computed in double precision, of the values of
  \<open>maxima\<close> in the non-empty clipped window of radius \<open>windowS\<close> around \<open>i\<close>; and
  \<open>maxima[i]\<close> is not less than \<open>minima[i]\<close>.
\<close>

theorem baseline_is_window_mean:
  assumes "i < length spectrum"
  shows
    "(let minima = minima_of spectrum options;
          maxima = maxima_of spectrum options;
          baseline = baseline_of spectrum options;
          wS = resolved_windowS (length spectrum) options;
          window_values =
            subarray maxima (windowLeft_of wS i) (windowRight_of (length spectrum) wS i)
      in rollingBall (JSArray spectrum) options = Inr baseline
       \<and> window_values \<noteq> [] \<and> set window_values \<subseteq> set maxima
       \<and> baseline ! i = xMean window_values
       \<and> \<not> double_less (maxima ! i) (minima ! i))"
proof -
  define n where "n = length spectrum"
  define wM where "wM = resolved_windowM n options"
  define wS where "wS = resolved_windowS n options"
  define minima where "minima = minima_of spectrum options"
  define maxima where "maxima = maxima_of spectrum options"
  define baseline where "baseline = baseline_of spectrum options"
  define vs where "vs = subarray maxima (windowLeft_of wS i) (windowRight_of n wS i)"
  have i: "i < n" using assms by (simp add: n_def)
  have lmin: "length minima = n" and lmax: "length maxima = n"
    by (simp_all add: minima_def maxima_def n_def length_minima_of length_maxima_of)
  have ne: "spectrum \<noteq> []" using assms by auto
  have r: "rollingBall (JSArray spectrum) options = Inr baseline"
    using ne by (simp add: rollingBall_array baseline_def)
  have vs_ne: "vs \<noteq> []"
    unfolding vs_def using i lmax by (simp add: subarray_nonempty window_lt windowRight_le)
  have vs_sub: "set vs \<subseteq> set maxima"
    unfolding vs_def by (rule set_subarray_subset)
  have b: "baseline ! i = xMean vs"
    using assms by (simp add: baseline_def baseline_of_nth vs_def maxima_def wS_def n_def)
  have ma: "maxima ! i =
      sequence_max (subarray minima (windowLeft_of wM i)
        (min (windowRight_of n wM i + 1) n))"
    using assms by (simp add: maxima_def maxima_of_nth minima_def wM_def n_def)
  have "minima ! i \<in> set (subarray minima (windowLeft_of wM i)
      (min (windowRight_of n wM i + 1) n))"
    using window_nonempty [OF i, of wM] lmin i by (intro nth_in_subarray) auto
  then have le: "\<not> double_less (maxima ! i) (minima ! i)"
    unfolding ma by (rule sequence_max_upper)
  from r vs_ne vs_sub b le show ?thesis
    unfolding Let_def
    by (simp add: n_def wM_def wS_def minima_def maxima_def baseline_def vs_def)
qed

theorem baseline_is_window_mean_witness:
  "(1 :: nat) < length [double_of_int 5, double_of_int 1, double_of_int 7]
   \<and> baseline_of [double_of_int 5, double_of_int 1, double_of_int 7]
       \<lparr>windowM = Some 1, windowS = Some 1\<rparr> ! 1 =
     xMean (subarray (maxima_of [double_of_int 5, double_of_int 1, double_of_int 7]
                        \<lparr>windowM = Some 1, windowS = Some 1\<rparr>)
              (windowLeft_of 1 1) (windowRight_of 3 1 1))
   \<and> \<not> double_less
         (maxima_of [double_of_int 5, double_of_int 1, double_of_int 7]
            \<lparr>windowM = Some 1, windowS = Some 1\<rparr> ! 1)
         (minima_of [double_of_int 5, double_of_int 1, double_of_int 7]
            \<lparr>windowM = Some 1, windowS = Some 1\<rparr> ! 1)"
  using baseline_is_window_mean [of 1 "[double_of_int 5, double_of_int 1, double_of_int 7]"
      "\<lparr>windowM = Some 1, windowS = Some 1\<rparr>"]
  by (simp add: Let_def numeral_3_eq_3)

end
